theory Spec2Isabelle
  imports Complex_Main "HOL-Library.AList" "HOL-Library.Log_Nat"
begin

section \<open>Data model\<close>

text \<open>
  The dashboard script \<^verbatim>\<open>app.py\<close> loads one CSV file per forecasting model into a
  pandas DataFrame, resamples it to a daily calendar, and serves one callback,
  \<^verbatim>\<open>update_graph\<close>, that turns the selected models and the slider range into a figure.

  A date is a day number (the CSV dates are parsed with \<^verbatim>\<open>%m/%d/%y\<close>, so every timestamp
  is a whole day). A cell of a numeric column is a float64 number or NaN; NaN is \<open>None\<close>, and a
  number is the real it denotes (infinities are left out). The arithmetic of the y axis
  (line 184) rounds as float64 does, see \<open>round_float64\<close>; the interior values of the
  interpolation are computed exactly, and nothing below depends on them.

  A DataFrame keeps its \<^verbatim>\<open>dates\<close> column and the other columns by name, in header order.
\<close>

type_synonym date = int

type_synonym cell = "real option"

record dataframe =
  dates :: "date list"
  cols :: "(string \<times> cell list) list"

datatype py_error =
    FileNotFoundError
  | ValueError_no_csv_files
  | ValueError_NaT_range
  | IndexError
  | KeyError string

text \<open>
  \<^verbatim>\<open>FileNotFoundError\<close> and \<^verbatim>\<open>ValueError_no_csv_files\<close> are the two errors the script raises
  itself (lines 21-28). \<^verbatim>\<open>ValueError_NaT_range\<close> is the \<^verbatim>\<open>ValueError\<close> of
  \<^verbatim>\<open>pd.date_range\<close> when its start or end is NaT, which is what \<^verbatim>\<open>min()\<close> and
  \<^verbatim>\<open>max()\<close> of an empty date column are. \<^verbatim>\<open>IndexError\<close> is a list index out of range,
  \<^verbatim>\<open>KeyError k\<close> a dictionary lookup of the absent key \<open>k\<close>.
\<close>

section \<open>Python and pandas primitives\<close>

definition py_index :: "'a list \<Rightarrow> int \<Rightarrow> py_error + 'a" where
  \<comment> \<open>\<^verbatim>\<open>xs[i]\<close>: an index from \<open>- len(xs)\<close> up to \<open>-1\<close> counts from the end.\<close>
  "py_index xs i =
     (if 0 \<le> i \<and> i < int (length xs) then Inr (xs ! nat i)
      else if - int (length xs) \<le> i \<and> i < 0 then Inr (xs ! nat (int (length xs) + i))
      else Inl IndexError)"

definition endswith :: "string \<Rightarrow> string \<Rightarrow> bool" where
  "endswith s suf = (length suf \<le> length s \<and> drop (length s - length suf) s = suf)"

fun replace_nonempty :: "string \<Rightarrow> string \<Rightarrow> string \<Rightarrow> string" where
  "replace_nonempty old new [] = []"
| "replace_nonempty old new (c # cs) =
     (if old \<noteq> [] \<and> take (length old) (c # cs) = old
      then new @ replace_nonempty old new (drop (length old) (c # cs))
      else c # replace_nonempty old new cs)"

definition py_replace :: "string \<Rightarrow> string \<Rightarrow> string \<Rightarrow> string" where
  \<comment> \<open>\<^verbatim>\<open>s.replace(old, new)\<close>: every non-overlapping occurrence, left to right.\<close>
  "py_replace old new s =
     (if old = [] then new @ concat (map (\<lambda>c. c # new) s) else replace_nonempty old new s)"

definition cell_at :: "cell list \<Rightarrow> nat \<Rightarrow> cell" where
  "cell_at c i = (if i < length c then c ! i else None)"

primrec dropna :: "cell list \<Rightarrow> real list" where
  "dropna [] = []"
| "dropna (c # cs) = (case c of None \<Rightarrow> dropna cs | Some v \<Rightarrow> v # dropna cs)"

definition take_rows :: "nat list \<Rightarrow> dataframe \<Rightarrow> dataframe" where
  "take_rows idx df =
     \<lparr>dates = map (\<lambda>i. dates df ! i) idx,
      cols = map (\<lambda>(n, c). (n, map (cell_at c) idx)) (cols df)\<rparr>"

definition sort_values :: "dataframe \<Rightarrow> dataframe" where
  \<comment> \<open>\<^verbatim>\<open>df.sort_values("dates")\<close>. Rows with equal dates keep their file order here; pandas
      fixes no order for them, and no property below depends on it.\<close>
  "sort_values df = take_rows (sort_key (\<lambda>i. dates df ! i) [0..<length (dates df)]) df"

definition date_range :: "date \<Rightarrow> date \<Rightarrow> date list" where
  \<comment> \<open>\<^verbatim>\<open>pd.date_range(start, end, freq="D")\<close> for two valid dates.\<close>
  "date_range start end = [start..end]"

definition merge_rows :: "date list \<Rightarrow> date list \<Rightarrow> (date \<times> nat option) list" where
  \<comment> \<open>The rows of a left merge on the date: for each calendar day the matching rows of the
      right frame, in their order, or one row with no match.\<close>
  "merge_rows full ds =
     concat (map (\<lambda>d. case filter (\<lambda>i. ds ! i = d) [0..<length ds] of
                         [] \<Rightarrow> [(d, None)]
                       | j # js \<Rightarrow> map (\<lambda>i. (d, Some i)) (j # js)) full)"

definition merged_cell :: "cell list \<Rightarrow> date \<times> nat option \<Rightarrow> cell" where
  "merged_cell c r = (case snd r of None \<Rightarrow> None | Some i \<Rightarrow> cell_at c i)"

definition merge_left :: "date list \<Rightarrow> dataframe \<Rightarrow> dataframe" where
  \<comment> \<open>\<^verbatim>\<open>pd.merge(df_full, df, on="dates", how="left")\<close>\<close>
  "merge_left full df =
     (let rs = merge_rows full (dates df)
      in \<lparr>dates = map fst rs,
          cols = map (\<lambda>(n, c). (n, map (merged_cell c) rs)) (cols df)\<rparr>)"

subsection \<open>Linear interpolation of a column\<close>

text \<open>
  \<^verbatim>\<open>Series.interpolate(method="linear")\<close> with the defaults of pandas: the index is ignored
  and the cells count as equally spaced; a NaN between two known cells lies on the line
  between the nearest known cell on each side; the fill direction is forward with no
  limit, so a NaN after the last known cell takes that cell's value and a NaN before the
  first known cell stays NaN.
\<close>

definition prev_valid :: "cell list \<Rightarrow> nat \<Rightarrow> nat option" where
  "prev_valid cs k =
     (case filter (\<lambda>i. cs ! i \<noteq> None) (rev [0..<k]) of [] \<Rightarrow> None | i # _ \<Rightarrow> Some i)"

definition next_valid :: "cell list \<Rightarrow> nat \<Rightarrow> nat option" where
  "next_valid cs k =
     (case filter (\<lambda>j. cs ! j \<noteq> None) [Suc k..<length cs] of [] \<Rightarrow> None | j # _ \<Rightarrow> Some j)"

definition interpolate_at :: "cell list \<Rightarrow> nat \<Rightarrow> cell" where
  "interpolate_at cs k =
     (case cs ! k of
        Some v \<Rightarrow> Some v
      | None \<Rightarrow>
          (case prev_valid cs k of
             None \<Rightarrow> None
           | Some i \<Rightarrow>
               (case next_valid cs k of
                  None \<Rightarrow> cs ! i
                | Some j \<Rightarrow>
                    (case (cs ! i, cs ! j) of
                       (Some a, Some b) \<Rightarrow>
                         Some (a + (b - a) * real (k - i) / real (j - i))
                     | _ \<Rightarrow> None))))"

definition interpolate_linear :: "cell list \<Rightarrow> cell list" where
  "interpolate_linear cs = map (interpolate_at cs) [0..<length cs]"

definition interpolate_col :: "string \<Rightarrow> dataframe \<Rightarrow> dataframe" where
  \<comment> \<open>\<^verbatim>\<open>df[n] = df[n].interpolate(method="linear")\<close>\<close>
  "interpolate_col n df =
     (case map_of (cols df) n of
        None \<Rightarrow> df
      | Some c \<Rightarrow> df\<lparr>cols := AList.update n (interpolate_linear c) (cols df)\<rparr>)"

section \<open>Loading the model files (lines 17-65)\<close>

definition has_col :: "dataframe \<Rightarrow> string \<Rightarrow> bool" where
  \<comment> \<open>\<^verbatim>\<open>n in df.columns\<close>\<close>
  "has_col df n = (map_of (cols df) n \<noteq> None)"

definition merge_calendar :: "dataframe \<Rightarrow> py_error + dataframe" where
  \<comment> \<open>Lines 39-48: sort, build the record's own calendar, merge onto it.\<close>
  "merge_calendar df0 =
     (let df = sort_values df0
      in if dates df = [] then Inl ValueError_NaT_range
         else Inr (merge_left (date_range (Min (set (dates df))) (Max (set (dates df)))) df))"

definition interpolate_frame :: "dataframe \<Rightarrow> dataframe \<Rightarrow> dataframe" where
  \<comment> \<open>Lines 49-57: which columns of the merged frame are interpolated is decided on the
      columns of the file's frame.\<close>
  "interpolate_frame df df_interpolated =
     (let d1 = (if has_col df ''groundtruth''
                then interpolate_col ''groundtruth'' df_interpolated else df_interpolated)
      in if has_col df ''predictions'' then interpolate_col ''predictions'' d1
         else if has_col df ''predicted values'' then interpolate_col ''predicted values'' d1
         else d1)"

definition load_frame :: "dataframe \<Rightarrow> py_error + dataframe" where
  "load_frame df =
     (case merge_calendar df of
        Inl e \<Rightarrow> Inl e
      | Inr df_interpolated \<Rightarrow> Inr (interpolate_frame df df_interpolated))"

fun load_files ::
  "(string \<times> dataframe) list \<Rightarrow> (string \<times> dataframe) list
     \<Rightarrow> py_error + (string \<times> dataframe) list" where
  "load_files [] models_data = Inr models_data"
| "load_files ((file, df) # fs) models_data =
     (case load_frame df of
        Inl e \<Rightarrow> Inl e
      | Inr d \<Rightarrow> load_files fs (AList.update (py_replace ''.csv'' [] file) d models_data))"

record app =
  models_data :: "(string \<times> dataframe) list"
  date_list :: "date list"

definition load_app :: "(string \<times> dataframe) list option \<Rightarrow> py_error + app" where
  \<comment> \<open>The argument is the listing of the models directory, \<open>None\<close> when the directory does
      not exist. Each file comes with the frame lines 36-37 give for it when
      \<^verbatim>\<open>pd.read_csv\<close> and \<^verbatim>\<open>pd.to_datetime\<close> succeed and its columns are numeric; a file
      without a \<^verbatim>\<open>dates\<close> column, with a date that does not parse or with text in a column
      has no such frame.\<close>
  "load_app dir =
     (case dir of
        None \<Rightarrow> Inl FileNotFoundError
      | Some listing \<Rightarrow>
          (let model_files = filter (\<lambda>f. endswith (fst f) ''.csv'') listing
           in if model_files = [] then Inl ValueError_no_csv_files
              else (case load_files model_files [] of
                      Inl e \<Rightarrow> Inl e
                    | Inr md \<Rightarrow>
                        (let all_dates = concat (map (\<lambda>m. dates (snd m)) md)
                         in if all_dates = [] then Inl ValueError_NaT_range
                            else Inr \<lparr>models_data = md,
                                      date_list = date_range (Min (set all_dates))
                                                             (Max (set all_dates))\<rparr>))))"

section \<open>The callback \<^verbatim>\<open>update_graph\<close> (lines 127-234)\<close>

text \<open>
  A trace is one \<^verbatim>\<open>go.Scatter\<close>. Every trace of the callback has mode \<^verbatim>\<open>lines\<close>, width 2
  and shape \<^verbatim>\<open>spline\<close>; the record keeps the fields in which the traces differ.
\<close>

record trace =
  trace_x :: "date list"
  trace_y :: "cell list"
  trace_name :: string
  line_color :: "string option"
  line_dash :: "string option"

datatype title =
    Smooth_window date date
  | Error_loading py_error

text \<open>
  The two titles are f-strings; the model keeps their arguments: \<open>Smooth_window s e\<close> is
  \<^verbatim>\<open>"Smooth Time-Series Data from {s} to {e}"\<close> and \<open>Error_loading e\<close> is
  \<^verbatim>\<open>"Error loading data: {str(e)}"\<close>.
\<close>

record yaxis =
  yaxis_range :: "real \<times> real"
  yaxis_dtick :: real

record figure =
  fig_data :: "trace list"
  fig_title :: "title option"
  fig_yaxis :: "yaxis option"

record loop_state =
  traces :: "trace list"
  ground_truth_plotted :: bool
  all_values :: "real list"

definition select_rows :: "bool list \<Rightarrow> 'a list \<Rightarrow> 'a list" where
  "select_rows keep xs = map snd (filter fst (zip keep xs))"

definition filter_window :: "date \<Rightarrow> date \<Rightarrow> dataframe \<Rightarrow> dataframe" where
  \<comment> \<open>\<^verbatim>\<open>df[(df["dates"] >= start_date) & (df["dates"] <= end_date)]\<close>\<close>
  "filter_window start_date end_date df =
     (let keep = map (\<lambda>d. start_date \<le> d \<and> d \<le> end_date) (dates df)
      in \<lparr>dates = select_rows keep (dates df),
          cols = map (\<lambda>(n, c). (n, select_rows keep c)) (cols df)\<rparr>)"

definition ground_truth_trace :: "dataframe \<Rightarrow> cell list \<Rightarrow> trace" where
  "ground_truth_trace df_filtered gt =
     \<lparr>trace_x = dates df_filtered, trace_y = gt, trace_name = ''Actual Values'',
      line_color = Some ''black'', line_dash = None\<rparr>"

definition display_name :: "string \<Rightarrow> string" where
  "display_name model = py_replace ''result-csv_'' [] (py_replace ''results-csv_'' [] model)"

definition predicted_trace :: "string \<Rightarrow> dataframe \<Rightarrow> cell list \<Rightarrow> trace" where
  "predicted_trace model df_filtered pred =
     \<lparr>trace_x = dates df_filtered, trace_y = pred, trace_name = display_name model,
      line_color = None, line_dash = Some ''dash''\<rparr>"

definition add_ground_truth :: "dataframe \<Rightarrow> loop_state \<Rightarrow> loop_state" where
  \<comment> \<open>Lines 149-159.\<close>
  "add_ground_truth df_filtered st =
     (if ground_truth_plotted st then st
      else (case map_of (cols df_filtered) ''groundtruth'' of
              None \<Rightarrow> st
            | Some gt \<Rightarrow>
                \<lparr>traces = traces st @ [ground_truth_trace df_filtered gt],
                 ground_truth_plotted = True,
                 all_values = all_values st @ dropna gt\<rparr>))"

definition pred_col :: "dataframe \<Rightarrow> cell list option" where
  \<comment> \<open>Lines 161-166: the column \<^verbatim>\<open>predictions\<close>, else \<^verbatim>\<open>predicted values\<close>, else none.\<close>
  "pred_col df_filtered =
     (case map_of (cols df_filtered) ''predictions'' of
        Some c \<Rightarrow> Some c
      | None \<Rightarrow> map_of (cols df_filtered) ''predicted values'')"

definition add_predicted :: "string \<Rightarrow> dataframe \<Rightarrow> loop_state \<Rightarrow> loop_state" where
  \<comment> \<open>Lines 168-179.\<close>
  "add_predicted model df_filtered st =
     (case pred_col df_filtered of
        None \<Rightarrow> st
      | Some pred \<Rightarrow>
          st\<lparr>traces := traces st @ [predicted_trace model df_filtered pred],
             all_values := all_values st @ dropna pred\<rparr>)"

definition process_model ::
  "(string \<times> dataframe) list \<Rightarrow> date \<Rightarrow> date \<Rightarrow> loop_state \<Rightarrow> string
     \<Rightarrow> py_error + loop_state" where
  \<comment> \<open>One iteration of the loop of lines 144-179.\<close>
  "process_model md start_date end_date st model =
     (case map_of md model of
        None \<Rightarrow> Inl (KeyError model)
      | Some df \<Rightarrow>
          (let df_filtered = filter_window start_date end_date df
           in Inr (add_predicted model df_filtered (add_ground_truth df_filtered st))))"

fun process_models ::
  "(string \<times> dataframe) list \<Rightarrow> date \<Rightarrow> date \<Rightarrow> loop_state \<Rightarrow> string list
     \<Rightarrow> py_error + loop_state" where
  "process_models md start_date end_date st [] = Inr st"
| "process_models md start_date end_date st (model # ms) =
     (case process_model md start_date end_date st model of
        Inl e \<Rightarrow> Inl e
      | Inr st' \<Rightarrow> process_models md start_date end_date st' ms)"

definition initial_state :: loop_state where
  "initial_state = \<lparr>traces = [], ground_truth_plotted = False, all_values = []\<rparr>"

subsection \<open>The arithmetic of line 184 in float64\<close>

text \<open>
  \<^verbatim>\<open>max(all_values)\<close> is a Python float, so \<^verbatim>\<open>((max(all_values) // 2000) + 1) * 2000\<close> is
  float arithmetic: every operation returns the float64 nearest to the exact result, ties
  to the even significand. \<open>round_float64\<close> is that rounding for a significand of 53 bits
  and an unbounded exponent (no overflow to infinity, no subnormal numbers).
  \<open>float_exponent x\<close> is the \<open>e\<close> with \<open>2 ^ e \<le> \<bar>x\<bar> < 2 ^ (e + 1)\<close>.

  \<open>float_floordiv\<close> is the floor division of two Python floats with a non-zero divisor, as
  the interpreter computes it: the remainder by C's \<^verbatim>\<open>fmod\<close>, which is exact and has the
  sign of the dividend; the quotient \<^verbatim>\<open>(vx - mod) / wx\<close>, lowered by one when the remainder
  is non-zero and its sign differs from the divisor's; then the quotient snapped to the
  nearest whole number.
\<close>

definition pow2 :: "int \<Rightarrow> real" where
  "pow2 e = (if 0 \<le> e then 2 ^ nat e else 1 / 2 ^ nat (- e))"

definition float_exponent :: "real \<Rightarrow> int" where
  "float_exponent x =
     (if 1 \<le> \<bar>x\<bar> then bitlen \<lfloor>\<bar>x\<bar>\<rfloor> - 1
      else (let k = bitlen \<lfloor>1 / \<bar>x\<bar>\<rfloor> - 1
            in if \<bar>x\<bar> * pow2 k = 1 then - k else - k - 1))"

definition round_half_even :: "real \<Rightarrow> int" where
  "round_half_even r =
     (let f = \<lfloor>r\<rfloor>; d = r - of_int f
      in if d < 1 / 2 then f else if 1 / 2 < d then f + 1 else if even f then f else f + 1)"

definition round_float64 :: "real \<Rightarrow> real" where
  "round_float64 x =
     (if x = 0 then 0
      else (let q = pow2 (float_exponent x - 52) in of_int (round_half_even (x / q)) * q))"

definition fmod :: "real \<Rightarrow> real \<Rightarrow> real" where
  "fmod vx wx = vx - wx * of_int (if 0 \<le> vx / wx then \<lfloor>vx / wx\<rfloor> else \<lceil>vx / wx\<rceil>)"

definition float_floordiv :: "real \<Rightarrow> real \<Rightarrow> real" where
  "float_floordiv vx wx =
     (let m = fmod vx wx;
          d0 = round_float64 (round_float64 (vx - m) / wx);
          d = (if m \<noteq> 0 \<and> ((wx < 0) \<noteq> (m < 0)) then round_float64 (d0 - 1) else d0)
      in if d \<noteq> 0
         then (let f = of_int \<lfloor>d\<rfloor>
               in if 1 / 2 < round_float64 (d - f) then round_float64 (f + 1) else f)
         else 0)"

definition y_max :: "real list \<Rightarrow> real" where
  \<comment> \<open>\<^verbatim>\<open>((max(all_values) // 2000) + 1) * 2000\<close>\<close>
  "y_max vs = round_float64 (round_float64 (float_floordiv (Max (set vs)) 2000 + 1) * 2000)"

definition finish_figure :: "date \<Rightarrow> date \<Rightarrow> loop_state \<Rightarrow> figure" where
  \<comment> \<open>Lines 181-222.\<close>
  "finish_figure start_date end_date st =
     (if all_values st \<noteq> []
      then \<lparr>fig_data = traces st,
            fig_title = Some (Smooth_window start_date end_date),
            fig_yaxis = Some \<lparr>yaxis_range = (0, y_max (all_values st)), yaxis_dtick = 2000\<rparr>\<rparr>
      else \<lparr>fig_data = traces st, fig_title = None, fig_yaxis = None\<rparr>)"

definition update_graph_try ::
  "app \<Rightarrow> string list \<Rightarrow> int list \<Rightarrow> py_error + figure" where
  \<comment> \<open>The body of the \<^verbatim>\<open>try\<close>.\<close>
  "update_graph_try a selected_models slider_range =
     (case py_index slider_range 0 of
        Inl e \<Rightarrow> Inl e
      | Inr i0 \<Rightarrow>
     (case py_index (date_list a) i0 of
        Inl e \<Rightarrow> Inl e
      | Inr start_date \<Rightarrow>
     (case py_index slider_range 1 of
        Inl e \<Rightarrow> Inl e
      | Inr i1 \<Rightarrow>
     (case py_index (date_list a) i1 of
        Inl e \<Rightarrow> Inl e
      | Inr end_date \<Rightarrow>
     (case process_models (models_data a) start_date end_date initial_state selected_models of
        Inl e \<Rightarrow> Inl e
      | Inr st \<Rightarrow> Inr (finish_figure start_date end_date st))))))"

definition error_figure :: "py_error \<Rightarrow> figure" where
  \<comment> \<open>Lines 224-234.\<close>
  "error_figure e = \<lparr>fig_data = [], fig_title = Some (Error_loading e), fig_yaxis = None\<rparr>"



definition update_graph :: "app \<Rightarrow> string list \<Rightarrow> int list \<Rightarrow> figure" where
  "update_graph a selected_models slider_range =
     (case update_graph_try a selected_models slider_range of
        Inl e \<Rightarrow> error_figure e
      | Inr fig \<Rightarrow> fig)"

section \<open>Vocabulary of the properties\<close>

definition is_dashed :: "trace \<Rightarrow> bool" where
  "is_dashed t = (line_dash t = Some ''dash'')"

definition is_actual_values_line :: "trace \<Rightarrow> bool" where
  \<comment> \<open>The solid line the callback draws for the ground truth.\<close>
  "is_actual_values_line t = (trace_name t = ''Actual Values'' \<and> line_dash t = None)"

definition window_column :: "date \<Rightarrow> date \<Rightarrow> dataframe \<Rightarrow> string \<Rightarrow> cell list option" where
  \<comment> \<open>A column of the frame restricted to the rows dated within the window.\<close>
  "window_column s e df n = map_of (cols (filter_window s e df)) n"

definition ground_truth_lines ::
  "(string \<times> dataframe) list \<Rightarrow> date \<Rightarrow> date \<Rightarrow> string \<Rightarrow> trace list" where
  \<comment> \<open>The ground-truth line of one model over the window: none when the model's frame has
      no \<^verbatim>\<open>groundtruth\<close> column.\<close>
  "ground_truth_lines md s e model =
     (case map_of md model of
        None \<Rightarrow> []
      | Some df \<Rightarrow>
          (case window_column s e df ''groundtruth'' of
             None \<Rightarrow> []
           | Some gt \<Rightarrow> [ground_truth_trace (filter_window s e df) gt]))"

definition predicted_lines ::
  "(string \<times> dataframe) list \<Rightarrow> date \<Rightarrow> date \<Rightarrow> string \<Rightarrow> trace list" where
  \<comment> \<open>The predicted line of one model over the window: none when the model's frame has
      neither \<^verbatim>\<open>predictions\<close> nor \<^verbatim>\<open>predicted values\<close>.\<close>
  "predicted_lines md s e model =
     (case map_of md model of
        None \<Rightarrow> []
      | Some df \<Rightarrow>
          (case pred_col (filter_window s e df) of
             None \<Rightarrow> []
           | Some p \<Rightarrow> [predicted_trace model (filter_window s e df) p]))"

definition predicted_values ::
  "(string \<times> dataframe) list \<Rightarrow> date \<Rightarrow> date \<Rightarrow> string \<Rightarrow> real list" where
  \<comment> \<open>The known values of the predicted line of one model over the window.\<close>
  "predicted_values md s e model =
     concat (map (\<lambda>t. dropna (trace_y t)) (predicted_lines md s e model))"

definition has_ground_truth :: "(string \<times> dataframe) list \<Rightarrow> string \<Rightarrow> bool" where
  "has_ground_truth md model =
     (case map_of md model of None \<Rightarrow> False | Some df \<Rightarrow> has_col df ''groundtruth'')"

definition interpolated_column :: "dataframe \<Rightarrow> string \<Rightarrow> bool" where
  \<comment> \<open>The columns lines 49-57 interpolate, for a file with frame \<open>df\<close>.\<close>
  "interpolated_column df n =
     (if n = ''groundtruth'' then has_col df ''groundtruth''
      else if n = ''predictions'' then has_col df ''predictions''
      else if n = ''predicted values''
           then (if has_col df ''predictions'' then False else has_col df ''predicted values'')
      else False)"

definition in_range :: "'a list \<Rightarrow> int \<Rightarrow> bool" where
  \<comment> \<open>The indices Python accepts for a list of this length.\<close>
  "in_range xs i = (- int (length xs) \<le> i \<and> i < int (length xs))"


section \<open>A small models directory\<close>

text \<open>
  Three files. \<open>frame_A\<close> is the two-row record of the specification's example, unsorted;
  \<open>frame_B\<close> names its predictions \<^verbatim>\<open>predicted values\<close> and starts with an unknown ground
  truth; \<open>frame_G\<close> has a ground truth and no predictions. \<open>example_app\<close> is what loading
  the directory gives (lemma \<open>load_example_dir\<close>).
\<close>

definition frame_A :: dataframe where
  "frame_A = \<lparr>dates = [3, 1],
     cols = [(''groundtruth'', [None, Some 100]), (''predictions'', [Some 110, None])]\<rparr>"

definition frame_B :: dataframe where
  "frame_B = \<lparr>dates = [2, 4],
     cols = [(''groundtruth'', [None, Some 2000]), (''predicted values'', [Some 1999, Some 2500])]\<rparr>"

definition frame_G :: dataframe where
  "frame_G = \<lparr>dates = [1, 2], cols = [(''groundtruth'', [Some 5, Some 7])]\<rparr>"

definition example_dir :: "(string \<times> dataframe) list" where
  "example_dir = [(''results-csv_A.csv'', frame_A), (''B.csv'', frame_B), (''G.csv'', frame_G)]"

definition loaded_A :: dataframe where
  "loaded_A =
     \<lparr>dates = [1, 2, 3],
      cols = [(''groundtruth'', [Some 100, Some 100, Some 100]),
              (''predictions'', [None, None, Some 110])]\<rparr>"

definition loaded_B :: dataframe where
  "loaded_B =
     \<lparr>dates = [2, 3, 4],
      cols = [(''groundtruth'', [None, None, Some 2000]),
              (''predicted values'', [Some 1999, Some (4499 / 2), Some 2500])]\<rparr>"

definition loaded_G :: dataframe where
  "loaded_G = \<lparr>dates = [1, 2], cols = [(''groundtruth'', [Some 5, Some 7])]\<rparr>"

definition example_app :: app where
  "example_app =
     \<lparr>models_data = [(''results-csv_A'', loaded_A), (''B'', loaded_B), (''G'', loaded_G)],
      date_list = [1, 2, 3, 4]\<rparr>"

definition frame_big :: dataframe where
  \<comment> \<open>A float64 column whose largest value is \<open>2 ^ 63\<close>.\<close>
  "frame_big =
     \<lparr>dates = [1, 2], cols = [(''predictions'', [Some 9223372036854775808, Some (1 / 2)])]\<rparr>"

definition big_app :: app where
  "big_app = \<lparr>models_data = [(''H'', frame_big)], date_list = [1, 2]\<rparr>"

definition frame_dup :: dataframe where
  \<comment> \<open>Two rows on the same day.\<close>
  "frame_dup = \<lparr>dates = [1, 1, 2], cols = [(''predictions'', [Some 10, Some 10, Some 30])]\<rparr>"

definition frame_dates_only :: dataframe where
  \<comment> \<open>A file with a \<^verbatim>\<open>dates\<close> column and nothing to plot.\<close>
  "frame_dates_only = \<lparr>dates = [1, 3], cols = []\<rparr>"

definition frame_empty :: dataframe where
  \<comment> \<open>A file with a header and no rows.\<close>
  "frame_empty = \<lparr>dates = [], cols = [(''groundtruth'', []), (''predictions'', [])]\<rparr>"

section \<open>The loop of the callback\<close>

lemma load_example_dir: "load_app (Some example_dir) = Inr example_app"
  by code_simp

lemma process_model_present:
  "map_of md m = Some df \<Longrightarrow>
     process_model md s e st m =
       Inr (add_predicted m (filter_window s e df) (add_ground_truth (filter_window s e df) st))"
  by (simp add: process_model_def Let_def)

lemma process_model_absent: "map_of md m = None \<Longrightarrow> process_model md s e st m = Inl (KeyError m)"
  by (simp add: process_model_def)

lemma window_column_has: "(window_column s e df n = None) = (\<not> has_col df n)"
  by (simp add: window_column_def filter_window_def has_col_def map_of_map Let_def)

lemma ground_truth_plotted_add_predicted [simp]:
  "ground_truth_plotted (add_predicted m dff st) = ground_truth_plotted st"
  by (simp add: add_predicted_def split: option.splits)

lemma dashed_add_ground_truth [simp]:
  "filter is_dashed (traces (add_ground_truth dff st)) = filter is_dashed (traces st)"
  by (simp add: add_ground_truth_def is_dashed_def ground_truth_trace_def split: option.splits)

lemma dashed_add_predicted:
  "filter is_dashed (traces (add_predicted m dff st)) =
     filter is_dashed (traces st) @
       (case pred_col dff of None \<Rightarrow> [] | Some p \<Rightarrow> [predicted_trace m dff p])"
  by (simp add: add_predicted_def is_dashed_def predicted_trace_def split: option.splits)

lemma solid_add_predicted [simp]:
  "filter (\<lambda>t. \<not> is_dashed t) (traces (add_predicted m dff st)) =
     filter (\<lambda>t. \<not> is_dashed t) (traces st)"
  by (simp add: add_predicted_def is_dashed_def predicted_trace_def split: option.splits)

lemma solid_add_ground_truth:
  "filter (\<lambda>t. \<not> is_dashed t) (traces (add_ground_truth dff st)) =
     filter (\<lambda>t. \<not> is_dashed t) (traces st) @
       (if ground_truth_plotted st then []
        else case map_of (cols dff) ''groundtruth'' of
               None \<Rightarrow> [] | Some gt \<Rightarrow> [ground_truth_trace dff gt])"
  by (simp add: add_ground_truth_def is_dashed_def ground_truth_trace_def split: option.splits)

lemma plotted_add_ground_truth:
  "ground_truth_plotted (add_ground_truth dff st) =
     (ground_truth_plotted st \<or> map_of (cols dff) ''groundtruth'' \<noteq> None)"
  by (simp add: add_ground_truth_def split: option.splits)

lemma predicted_lines_present:
  "map_of md m = Some df \<Longrightarrow>
     predicted_lines md s e m =
       (case pred_col (filter_window s e df) of
          None \<Rightarrow> [] | Some p \<Rightarrow> [predicted_trace m (filter_window s e df) p])"
  by (simp add: predicted_lines_def)

lemma process_models_dashed:
  "process_models md s e st ms = Inr st' \<Longrightarrow>
     filter is_dashed (traces st') =
       filter is_dashed (traces st) @ concat (map (predicted_lines md s e) ms)"
proof (induction ms arbitrary: st)
  case Nil
  then show ?case by simp
next
  case (Cons m ms)
  from Cons.prems obtain df where df: "map_of md m = Some df"
    by (cases "map_of md m") (simp_all add: process_model_absent)
  let ?st1 = "add_predicted m (filter_window s e df) (add_ground_truth (filter_window s e df) st)"
  from Cons.prems df have "process_models md s e ?st1 ms = Inr st'"
    by (simp add: process_model_present)
  then have "filter is_dashed (traces st') =
      filter is_dashed (traces ?st1) @ concat (map (predicted_lines md s e) ms)"
    by (rule Cons.IH)
  then show ?case
    using df by (simp add: dashed_add_predicted predicted_lines_present)
qed

lemma process_models_solid:
  "process_models md s e st ms = Inr st' \<Longrightarrow>
     filter (\<lambda>t. \<not> is_dashed t) (traces st') =
       filter (\<lambda>t. \<not> is_dashed t) (traces st) @
         (if ground_truth_plotted st then []
          else case find (has_ground_truth md) ms of
                 None \<Rightarrow> [] | Some m \<Rightarrow> ground_truth_lines md s e m)"
proof (induction ms arbitrary: st)
  case Nil
  then show ?case by simp
next
  case (Cons m ms)
  from Cons.prems obtain df where df: "map_of md m = Some df"
    by (cases "map_of md m") (simp_all add: process_model_absent)
  let ?dff = "filter_window s e df"
  let ?st0 = "add_ground_truth ?dff st"
  let ?st1 = "add_predicted m ?dff ?st0"
  from Cons.prems df have run: "process_models md s e ?st1 ms = Inr st'"
    by (simp add: process_model_present)
  have ih: "filter (\<lambda>t. \<not> is_dashed t) (traces st') =
       filter (\<lambda>t. \<not> is_dashed t) (traces ?st1) @
         (if ground_truth_plotted ?st1 then []
          else case find (has_ground_truth md) ms of
                 None \<Rightarrow> [] | Some m \<Rightarrow> ground_truth_lines md s e m)"
    using run by (rule Cons.IH)
  have col: "(map_of (cols ?dff) ''groundtruth'' = None) = (\<not> has_col df ''groundtruth'')"
    using window_column_has [of s e df "''groundtruth''"] by (simp add: window_column_def)
  show ?case
  proof (cases "ground_truth_plotted st")
    case True
    then show ?thesis
      using ih by (simp add: solid_add_ground_truth plotted_add_ground_truth)
  next
    case False
    show ?thesis
    proof (cases "has_col df ''groundtruth''")
      case True
      with col obtain gt where gt: "map_of (cols ?dff) ''groundtruth'' = Some gt" by auto
      from True df have "has_ground_truth md m" by (simp add: has_ground_truth_def)
      then show ?thesis
        using ih False gt df
        by (simp add: solid_add_ground_truth plotted_add_ground_truth ground_truth_lines_def
              window_column_def)
    next
      case no: False
      with col have gt: "map_of (cols ?dff) ''groundtruth'' = None" by simp
      from no df have "\<not> has_ground_truth md m" by (simp add: has_ground_truth_def)
      then show ?thesis
        using ih False gt
        by (simp add: solid_add_ground_truth plotted_add_ground_truth)
    qed
  qed
qed

lemma process_models_total:
  "(\<forall>m \<in> set ms. map_of md m \<noteq> None) \<Longrightarrow> \<exists>st'. process_models md s e st ms = Inr st'"
proof (induction ms arbitrary: st)
  case Nil
  then show ?case by simp
next
  case (Cons m ms)
  then obtain df where df: "map_of md m = Some df" by auto
  from Cons.prems have "\<forall>m \<in> set ms. map_of md m \<noteq> None" by simp
  from Cons.IH [OF this] show ?case using df by (simp add: process_model_present)
qed

lemma process_models_absent:
  "\<exists>m \<in> set ms. map_of md m = None \<Longrightarrow>
     \<exists>k \<in> set ms. map_of md k = None \<and> process_models md s e st ms = Inl (KeyError k)"
proof (induction ms arbitrary: st)
  case Nil
  then show ?case by simp
next
  case (Cons m ms)
  show ?case
  proof (cases "map_of md m")
    case None
    then show ?thesis by (simp add: process_model_absent)
  next
    case (Some df)
    with Cons.prems have "\<exists>m \<in> set ms. map_of md m = None" by auto
    from Cons.IH [OF this] show ?thesis using Some by (auto simp add: process_model_present)
  qed
qed

section \<open>Resolving the slider range\<close>

lemma py_index_pair [simp]:
  "py_index [i0, i1] 0 = Inr i0" "py_index [i0, i1] 1 = Inr i1"
  by (simp_all add: py_index_def)

lemma py_index_in_range: "in_range xs i \<Longrightarrow> \<exists>x. py_index xs i = Inr x"
  by (auto simp add: py_index_def in_range_def Let_def)

lemma py_index_out_of_range: "\<not> in_range xs i \<Longrightarrow> py_index xs i = Inl IndexError"
  by (auto simp add: py_index_def in_range_def Let_def)

lemma update_graph_try_resolved:
  "py_index (date_list a) i0 = Inr s \<Longrightarrow> py_index (date_list a) i1 = Inr e \<Longrightarrow>
     update_graph_try a sel [i0, i1] =
       (case process_models (models_data a) s e initial_state sel of
          Inl err \<Rightarrow> Inl err | Inr st \<Rightarrow> Inr (finish_figure s e st))"
  by (simp add: update_graph_try_def)

lemma update_graph_resolved:
  "py_index (date_list a) i0 = Inr s \<Longrightarrow> py_index (date_list a) i1 = Inr e \<Longrightarrow>
   process_models (models_data a) s e initial_state sel = Inr st \<Longrightarrow>
     update_graph a sel [i0, i1] = finish_figure s e st"
  by (simp add: update_graph_def update_graph_try_resolved)

lemma update_graph_try_Inr:
  "update_graph_try a sel sr = Inr fig \<Longrightarrow>
     \<exists>s e st. process_models (models_data a) s e initial_state sel = Inr st
        \<and> fig = finish_figure s e st"
  by (auto simp add: update_graph_try_def split: sum.splits)

lemma fig_data_finish [simp]: "fig_data (finish_figure s e st) = traces st"
  by (simp add: finish_figure_def)

section \<open>Float arithmetic on whole numbers\<close>










lemma load_big_dir: "load_app (Some [(''H.csv'', frame_big)]) = Inr big_app"
  by code_simp

section \<open>Axis scaling\<close>




section \<open>One iteration of the loop\<close>

lemma window_column_eq:
  "window_column s e df n =
     map_option (select_rows (map (\<lambda>d. s \<le> d \<and> d \<le> e) (dates df))) (map_of (cols df) n)"
  by (simp add: window_column_def filter_window_def map_of_map Let_def)

lemma dates_filter_window:
  "dates (filter_window s e df) = select_rows (map (\<lambda>d. s \<le> d \<and> d \<le> e) (dates df)) (dates df)"
  by (simp add: filter_window_def Let_def)

lemma add_predicted_eq:
  "map_of md m = Some df \<Longrightarrow>
     add_predicted m (filter_window s e df) st =
       st\<lparr>traces := traces st @ predicted_lines md s e m,
          all_values := all_values st @ predicted_values md s e m\<rparr>"
  by (simp add: add_predicted_def predicted_values_def predicted_lines_present predicted_trace_def
        split: option.splits)

lemma process_model_step:
  assumes "map_of md model = Some df"
  shows "\<exists>st'. process_model md s e st model = Inr st' \<and>
           (if \<not> ground_truth_plotted st \<and> has_col df ''groundtruth''
            then \<exists>gt. map_of (cols df) ''groundtruth'' = Some gt
                   \<and> traces st' =
                       traces st @
                         [\<lparr>trace_x = select_rows (map (\<lambda>d. s \<le> d \<and> d \<le> e) (dates df)) (dates df),
                           trace_y = select_rows (map (\<lambda>d. s \<le> d \<and> d \<le> e) (dates df)) gt,
                           trace_name = ''Actual Values'',
                           line_color = Some ''black'', line_dash = None\<rparr>]
                         @ predicted_lines md s e model
                   \<and> all_values st' =
                       all_values st
                         @ dropna (select_rows (map (\<lambda>d. s \<le> d \<and> d \<le> e) (dates df)) gt)
                         @ predicted_values md s e model
                   \<and> ground_truth_plotted st'
            else traces st' = traces st @ predicted_lines md s e model
                   \<and> all_values st' = all_values st @ predicted_values md s e model
                   \<and> ground_truth_plotted st' = ground_truth_plotted st)"
proof -
  let ?dff = "filter_window s e df"
  let ?keep = "map (\<lambda>d. s \<le> d \<and> d \<le> e) (dates df)"
  have run: "process_model md s e st model =
      Inr ((add_ground_truth ?dff st)
             \<lparr>traces := traces (add_ground_truth ?dff st) @ predicted_lines md s e model,
              all_values := all_values (add_ground_truth ?dff st) @ predicted_values md s e model\<rparr>)"
    using assms by (simp add: process_model_present add_predicted_eq)
  have col: "map_of (cols ?dff) ''groundtruth'' =
      map_option (select_rows ?keep) (map_of (cols df) ''groundtruth'')"
    using window_column_eq [of s e df "''groundtruth''"] by (simp add: window_column_def)
  show ?thesis
  proof (cases "\<not> ground_truth_plotted st \<and> has_col df ''groundtruth''")
    case True
    then obtain gt where gt: "map_of (cols df) ''groundtruth'' = Some gt"
      by (auto simp add: has_col_def)
    have "add_ground_truth ?dff st =
        \<lparr>traces = traces st @ [ground_truth_trace ?dff (select_rows ?keep gt)],
         ground_truth_plotted = True,
         all_values = all_values st @ dropna (select_rows ?keep gt)\<rparr>"
      using True gt col by (simp add: add_ground_truth_def)
    then show ?thesis
      using True gt run by (simp add: ground_truth_trace_def dates_filter_window)
  next
    case False
    have "add_ground_truth ?dff st = st"
      using False col by (auto simp add: add_ground_truth_def has_col_def split: option.splits)
    then show ?thesis
      using False run by simp
  qed
qed

text \<open>
  Claim C1 as the code has it. In one iteration for a model of the store, the solid line
  named \<^verbatim>\<open>Actual Values\<close> is added exactly when \<open>ground_truth_plotted\<close> is still false and
  the model's frame has a \<^verbatim>\<open>groundtruth\<close> column, whether or not a cell of it within the
  window is known. The line carries the dates and the ground-truth cells of every row
  within the window, unknown cells included; its known values are appended to
  \<open>all_values\<close> and \<open>ground_truth_plotted\<close> becomes true. Over a whole selection the solid
  lines of the result are the one line of the first selected model whose frame has the
  column, and none when no selected model has it.
\<close>

theorem ground_truth_line:
  assumes "map_of md model = Some df"
  shows "(\<exists>st'. process_model md s e st model = Inr st' \<and>
           (if \<not> ground_truth_plotted st \<and> has_col df ''groundtruth''
            then \<exists>gt. map_of (cols df) ''groundtruth'' = Some gt
                   \<and> traces st' =
                       traces st @
                         [\<lparr>trace_x = select_rows (map (\<lambda>d. s \<le> d \<and> d \<le> e) (dates df)) (dates df),
                           trace_y = select_rows (map (\<lambda>d. s \<le> d \<and> d \<le> e) (dates df)) gt,
                           trace_name = ''Actual Values'',
                           line_color = Some ''black'', line_dash = None\<rparr>]
                         @ predicted_lines md s e model
                   \<and> all_values st' =
                       all_values st
                         @ dropna (select_rows (map (\<lambda>d. s \<le> d \<and> d \<le> e) (dates df)) gt)
                         @ predicted_values md s e model
                   \<and> ground_truth_plotted st'
            else traces st' = traces st @ predicted_lines md s e model
                   \<and> all_values st' = all_values st @ predicted_values md s e model
                   \<and> ground_truth_plotted st' = ground_truth_plotted st))
         \<and> (\<forall>sel final.
               process_models md s e initial_state sel = Inr final \<longrightarrow>
               filter (\<lambda>t. \<not> is_dashed t) (traces final) =
                 (case find (has_ground_truth md) sel of
                    None \<Rightarrow> []
                  | Some m \<Rightarrow> ground_truth_lines md s e m))"
proof (intro conjI allI impI)
  show "\<exists>st'. process_model md s e st model = Inr st' \<and>
           (if \<not> ground_truth_plotted st \<and> has_col df ''groundtruth''
            then \<exists>gt. map_of (cols df) ''groundtruth'' = Some gt
                   \<and> traces st' =
                       traces st @
                         [\<lparr>trace_x = select_rows (map (\<lambda>d. s \<le> d \<and> d \<le> e) (dates df)) (dates df),
                           trace_y = select_rows (map (\<lambda>d. s \<le> d \<and> d \<le> e) (dates df)) gt,
                           trace_name = ''Actual Values'',
                           line_color = Some ''black'', line_dash = None\<rparr>]
                         @ predicted_lines md s e model
                   \<and> all_values st' =
                       all_values st
                         @ dropna (select_rows (map (\<lambda>d. s \<le> d \<and> d \<le> e) (dates df)) gt)
                         @ predicted_values md s e model
                   \<and> ground_truth_plotted st'
            else traces st' = traces st @ predicted_lines md s e model
                   \<and> all_values st' = all_values st @ predicted_values md s e model
                   \<and> ground_truth_plotted st' = ground_truth_plotted st)"
    using assms by (rule process_model_step)
next
  fix sel final
  assume "process_models md s e initial_state sel = Inr final"
  from process_models_solid [OF this]
  show "filter (\<lambda>t. \<not> is_dashed t) (traces final) =
          (case find (has_ground_truth md) sel of
             None \<Rightarrow> [] | Some m \<Rightarrow> ground_truth_lines md s e m)"
    by (simp add: initial_state_def)
qed

theorem ground_truth_line_witness:
  "map_of (models_data example_app) ''B'' = Some loaded_B
   \<and> \<not> ground_truth_plotted initial_state \<and> has_col loaded_B ''groundtruth''
   \<and> (\<exists>st'. process_model (models_data example_app) 2 2 initial_state ''B'' = Inr st'
          \<and> traces st' =
               [\<lparr>trace_x = [2], trace_y = [None], trace_name = ''Actual Values'',
                 line_color = Some ''black'', line_dash = None\<rparr>,
                \<lparr>trace_x = [2], trace_y = [Some 1999], trace_name = ''B'',
                 line_color = None, line_dash = Some ''dash''\<rparr>]
          \<and> all_values st' = [1999]
          \<and> ground_truth_plotted st')
   \<and> (\<exists>final. process_models (models_data example_app) 2 2 initial_state
                  [''B'', ''results-csv_A''] = Inr final
          \<and> filter (\<lambda>t. \<not> is_dashed t) (traces final) =
               [\<lparr>trace_x = [2], trace_y = [None], trace_name = ''Actual Values'',
                 line_color = Some ''black'', line_dash = None\<rparr>])"
proof -
  have h: "map_of (models_data example_app) ''B'' = Some loaded_B" by code_simp
  have c: "\<not> ground_truth_plotted initial_state \<and> has_col loaded_B ''groundtruth''" by code_simp
  have gt: "map_of (cols loaded_B) ''groundtruth'' = Some [None, None, Some 2000]" by code_simp
  have x: "select_rows (map (\<lambda>d. 2 \<le> d \<and> d \<le> 2) (dates loaded_B)) (dates loaded_B) = [2]"
    by code_simp
  have y: "select_rows (map (\<lambda>d. 2 \<le> d \<and> d \<le> 2) (dates loaded_B)) [None, None, Some (2000::real)]
      = [None]"
    by code_simp
  have pl: "predicted_lines (models_data example_app) 2 2 ''B'' =
      [\<lparr>trace_x = [2], trace_y = [Some 1999], trace_name = ''B'',
        line_color = None, line_dash = Some ''dash''\<rparr>]"
    by code_simp
  have pv: "predicted_values (models_data example_app) 2 2 ''B'' = [1999]" by code_simp
  have i: "traces initial_state = []" "all_values initial_state = []"
    by (simp_all add: initial_state_def)
  from ground_truth_line [OF h, of 2 2 initial_state] c
  obtain st' g where "process_model (models_data example_app) 2 2 initial_state ''B'' = Inr st'"
    and "map_of (cols loaded_B) ''groundtruth'' = Some g"
    and "traces st' =
           traces initial_state @
             [\<lparr>trace_x = select_rows (map (\<lambda>d. 2 \<le> d \<and> d \<le> 2) (dates loaded_B)) (dates loaded_B),
               trace_y = select_rows (map (\<lambda>d. 2 \<le> d \<and> d \<le> 2) (dates loaded_B)) g,
               trace_name = ''Actual Values'',
               line_color = Some ''black'', line_dash = None\<rparr>]
             @ predicted_lines (models_data example_app) 2 2 ''B''"
    and "all_values st' =
           all_values initial_state
             @ dropna (select_rows (map (\<lambda>d. 2 \<le> d \<and> d \<le> 2) (dates loaded_B)) g)
             @ predicted_values (models_data example_app) 2 2 ''B''"
    and "ground_truth_plotted st'"
    by auto
  then have step: "\<exists>st'. process_model (models_data example_app) 2 2 initial_state ''B'' = Inr st'
          \<and> traces st' =
               [\<lparr>trace_x = [2], trace_y = [None], trace_name = ''Actual Values'',
                 line_color = Some ''black'', line_dash = None\<rparr>,
                \<lparr>trace_x = [2], trace_y = [Some 1999], trace_name = ''B'',
                 line_color = None, line_dash = Some ''dash''\<rparr>]
          \<and> all_values st' = [1999]
          \<and> ground_truth_plotted st'"
    using gt x y pl pv i by auto
  have "\<forall>m \<in> set [''B'', ''results-csv_A'']. map_of (models_data example_app) m \<noteq> None"
    by code_simp
  from process_models_total [OF this]
  obtain final where run: "process_models (models_data example_app) 2 2 initial_state
                  [''B'', ''results-csv_A''] = Inr final"
    by blast
  have f: "(case find (has_ground_truth (models_data example_app)) [''B'', ''results-csv_A''] of
              None \<Rightarrow> []
            | Some m \<Rightarrow> ground_truth_lines (models_data example_app) 2 2 m) =
       [\<lparr>trace_x = [2], trace_y = [None], trace_name = ''Actual Values'',
         line_color = Some ''black'', line_dash = None\<rparr>]"
    by code_simp
  from ground_truth_line [OF h, of 2 2 initial_state] run
  have "filter (\<lambda>t. \<not> is_dashed t) (traces final) =
      (case find (has_ground_truth (models_data example_app)) [''B'', ''results-csv_A''] of
         None \<Rightarrow> []
       | Some m \<Rightarrow> ground_truth_lines (models_data example_app) 2 2 m)"
    by blast
  with f run have "\<exists>final. process_models (models_data example_app) 2 2 initial_state
                  [''B'', ''results-csv_A''] = Inr final
          \<and> filter (\<lambda>t. \<not> is_dashed t) (traces final) =
               [\<lparr>trace_x = [2], trace_y = [None], trace_name = ''Actual Values'',
                 line_color = Some ''black'', line_dash = None\<rparr>]"
    by simp
  with h c step show ?thesis by blast
qed

theorem ground_truth_line_counterexample:
  "py_index (date_list example_app) 1 = Inr 2
   \<and> map_of (models_data example_app) ''B'' = Some loaded_B
   \<and> map_of (models_data example_app) ''results-csv_A'' = Some loaded_A
   \<and> window_column 2 2 loaded_B ''groundtruth'' = Some [None]
   \<and> window_column 2 2 loaded_A ''groundtruth'' = Some [Some 100]
   \<and> filter (\<lambda>t. \<not> is_dashed t)
        (fig_data (update_graph example_app [''B'', ''results-csv_A''] [1, 1])) =
       [\<lparr>trace_x = [2], trace_y = [None], trace_name = ''Actual Values'',
         line_color = Some ''black'', line_dash = None\<rparr>]"
  by code_simp

section \<open>The predicted lines\<close>

lemma process_models_values_grow:
  "process_models md s e st ms = Inr st' \<Longrightarrow> \<exists>post. all_values st' = all_values st @ post"
proof (induction ms arbitrary: st)
  case Nil
  then show ?case by simp
next
  case (Cons m ms)
  from Cons.prems obtain df where df: "map_of md m = Some df"
    by (cases "map_of md m") (simp_all add: process_model_absent)
  from process_model_step [OF df, of s e st]
  obtain st1 mid where st1: "process_model md s e st m = Inr st1"
    and v: "all_values st1 = all_values st @ mid"
    by (auto split: if_splits)
  from Cons.prems st1 have "process_models md s e st1 ms = Inr st'" by simp
  from Cons.IH [OF this] v show ?case by auto
qed

lemma process_models_present:
  assumes "process_models md s e st ms = Inr st'" and "m \<in> set ms"
  shows "\<exists>df. map_of md m = Some df"
proof (rule ccontr)
  assume "\<not> (\<exists>df. map_of md m = Some df)"
  with assms(2) have "\<exists>m \<in> set ms. map_of md m = None" by auto
  from process_models_absent [OF this, of s e st] assms(1) show False by auto
qed

lemma process_models_predicted_values:
  "process_models md s e st ms = Inr st' \<Longrightarrow> m \<in> set ms \<Longrightarrow>
     \<exists>pre post. all_values st' = pre @ predicted_values md s e m @ post"
proof (induction ms arbitrary: st)
  case Nil
  then show ?case by simp
next
  case (Cons k ms)
  from Cons.prems(1) obtain df where df: "map_of md k = Some df"
    by (cases "map_of md k") (simp_all add: process_model_absent)
  from process_model_step [OF df, of s e st]
  obtain st1 where st1: "process_model md s e st k = Inr st1"
    and v: "\<exists>pre. all_values st1 = pre @ predicted_values md s e k"
    by (cases "\<not> ground_truth_plotted st \<and> has_col df ''groundtruth''") fastforce+
  from Cons.prems(1) st1 have rest: "process_models md s e st1 ms = Inr st'" by simp
  show ?case
  proof (cases "m = k")
    case True
    from process_models_values_grow [OF rest] obtain post
      where p: "all_values st' = all_values st1 @ post" by blast
    from v obtain pre where "all_values st1 = pre @ predicted_values md s e k" by blast
    with p have "all_values st' = pre @ predicted_values md s e k @ post" by simp
    with True show ?thesis by blast
  next
    case False
    with Cons.prems(2) have "m \<in> set ms" by simp
    from Cons.IH [OF rest this] show ?thesis .
  qed
qed

text \<open>
  Claim C6 as the code has it. When the range indices resolve and every selected model is
  in the store, the dashed lines of the figure are, in selection order, one line for each
  selected model whose frame has a \<^verbatim>\<open>predictions\<close> or else a \<^verbatim>\<open>predicted values\<close> column,
  and none for a model with neither. The line carries the rows within the window, is named
  by the model id with every \<^verbatim>\<open>results-csv_\<close> and then every \<^verbatim>\<open>result-csv_\<close> removed, and
  its known values are a segment of \<open>all_values\<close>, whether or not the ground truth was drawn.
\<close>

theorem predicted_line_per_model:
  assumes "py_index (date_list a) i0 = Inr s" and "py_index (date_list a) i1 = Inr e"
    and "process_models (models_data a) s e initial_state sel = Inr st"
  shows "filter is_dashed (fig_data (update_graph a sel [i0, i1])) =
           concat (map (predicted_lines (models_data a) s e) sel)
         \<and> (\<forall>m \<in> set sel. \<exists>df.
               map_of (models_data a) m = Some df
               \<and> predicted_lines (models_data a) s e m =
                   (case pred_col (filter_window s e df) of
                      None \<Rightarrow> []
                    | Some p \<Rightarrow>
                        [\<lparr>trace_x = dates (filter_window s e df), trace_y = p,
                          trace_name =
                            py_replace ''result-csv_'' [] (py_replace ''results-csv_'' [] m),
                          line_color = None, line_dash = Some ''dash''\<rparr>])
               \<and> (\<exists>pre post.
                     all_values st = pre @ predicted_values (models_data a) s e m @ post))"
proof (intro conjI ballI)
  have "update_graph a sel [i0, i1] = finish_figure s e st"
    using assms by (rule update_graph_resolved)
  then show "filter is_dashed (fig_data (update_graph a sel [i0, i1])) =
           concat (map (predicted_lines (models_data a) s e) sel)"
    using process_models_dashed [OF assms(3)] by (simp add: initial_state_def)
next
  fix m assume m: "m \<in> set sel"
  from process_models_present [OF assms(3) m]
  obtain df where df: "map_of (models_data a) m = Some df" by blast
  have "predicted_lines (models_data a) s e m =
      (case pred_col (filter_window s e df) of
         None \<Rightarrow> []
       | Some p \<Rightarrow>
           [\<lparr>trace_x = dates (filter_window s e df), trace_y = p,
             trace_name = py_replace ''result-csv_'' [] (py_replace ''results-csv_'' [] m),
             line_color = None, line_dash = Some ''dash''\<rparr>])"
    using df
    by (simp add: predicted_lines_present predicted_trace_def display_name_def
          split: option.splits)
  with df process_models_predicted_values [OF assms(3) m]
  show "\<exists>df. map_of (models_data a) m = Some df
               \<and> predicted_lines (models_data a) s e m =
                   (case pred_col (filter_window s e df) of
                      None \<Rightarrow> []
                    | Some p \<Rightarrow>
                        [\<lparr>trace_x = dates (filter_window s e df), trace_y = p,
                          trace_name =
                            py_replace ''result-csv_'' [] (py_replace ''results-csv_'' [] m),
                          line_color = None, line_dash = Some ''dash''\<rparr>])
               \<and> (\<exists>pre post.
                     all_values st = pre @ predicted_values (models_data a) s e m @ post)"
    by blast
qed

theorem predicted_line_per_model_witness:
  "py_index (date_list example_app) 0 = Inr 1 \<and> py_index (date_list example_app) 3 = Inr 4
   \<and> (\<exists>st. process_models (models_data example_app) 1 4 initial_state
             [''results-csv_A'', ''G'', ''B''] = Inr st)
   \<and> filter is_dashed
        (fig_data (update_graph example_app [''results-csv_A'', ''G'', ''B''] [0, 3])) =
       [\<lparr>trace_x = [1, 2, 3], trace_y = [None, None, Some 110], trace_name = ''A'',
         line_color = None, line_dash = Some ''dash''\<rparr>,
        \<lparr>trace_x = [2, 3, 4], trace_y = [Some 1999, Some (4499 / 2), Some 2500],
         trace_name = ''B'', line_color = None, line_dash = Some ''dash''\<rparr>]"
proof -
  have h1: "py_index (date_list example_app) 0 = Inr 1" by code_simp
  have h2: "py_index (date_list example_app) 3 = Inr 4" by code_simp
  have "\<forall>m \<in> set [''results-csv_A'', ''G'', ''B'']. map_of (models_data example_app) m \<noteq> None"
    by code_simp
  from process_models_total [OF this]
  obtain st where h3: "process_models (models_data example_app) 1 4 initial_state
             [''results-csv_A'', ''G'', ''B''] = Inr st"
    by blast
  have pl: "concat (map (predicted_lines (models_data example_app) 1 4)
                [''results-csv_A'', ''G'', ''B'']) =
       [\<lparr>trace_x = [1, 2, 3], trace_y = [None, None, Some 110], trace_name = ''A'',
         line_color = None, line_dash = Some ''dash''\<rparr>,
        \<lparr>trace_x = [2, 3, 4], trace_y = [Some 1999, Some (4499 / 2), Some 2500],
         trace_name = ''B'', line_color = None, line_dash = Some ''dash''\<rparr>]"
    by code_simp
  from predicted_line_per_model [OF h1 h2 h3] pl h1 h2 h3 show ?thesis by auto
qed

theorem predicted_line_per_model_counterexample:
  "py_index (date_list example_app) 0 = Inr 1 \<and> py_index (date_list example_app) 3 = Inr 4
   \<and> map_of (models_data example_app) ''G'' = Some loaded_G
   \<and> update_graph example_app [''G''] [0, 3] =
       \<lparr>fig_data =
          [\<lparr>trace_x = [1, 2], trace_y = [Some 5, Some 7], trace_name = ''Actual Values'',
            line_color = Some ''black'', line_dash = None\<rparr>],
        fig_title = Some (Smooth_window 1 4),
        fig_yaxis = Some \<lparr>yaxis_range = (0, 2000), yaxis_dtick = 2000\<rparr>\<rparr>
   \<and> filter is_dashed (fig_data (update_graph example_app [''G''] [0, 3])) = []"
  by code_simp

section \<open>Ground truth at most once\<close>

lemma length_filter_mono:
  "(\<And>x. P x \<Longrightarrow> Q x) \<Longrightarrow> length (filter P xs) \<le> length (filter Q xs)"
  by (induction xs) auto

lemma ground_truth_lines_le: "length (ground_truth_lines md s e m) \<le> 1"
  by (simp add: ground_truth_lines_def split: option.splits)

lemma process_models_solid_le:
  assumes "process_models md s e initial_state ms = Inr st"
  shows "length (filter (\<lambda>t. \<not> is_dashed t) (traces st)) \<le> 1"
proof -
  have "filter (\<lambda>t. \<not> is_dashed t) (traces st) =
      (case find (has_ground_truth md) ms of
         None \<Rightarrow> [] | Some m \<Rightarrow> ground_truth_lines md s e m)"
    using process_models_solid [OF assms] by (simp add: initial_state_def)
  then show ?thesis
    using ground_truth_lines_le by (simp split: option.splits)
qed

text \<open>
  Claim C7. Whatever the store, the selection and the slider range, the figure the callback
  returns has at most one solid line named \<^verbatim>\<open>Actual Values\<close>.
\<close>

theorem ground_truth_at_most_once:
  "length (filter is_actual_values_line (fig_data (update_graph a sel sr))) \<le> 1"
proof (cases "update_graph_try a sel sr")
  case (Inl err)
  then show ?thesis by (simp add: update_graph_def error_figure_def)
next
  case (Inr fig)
  then obtain s e st where run: "process_models (models_data a) s e initial_state sel = Inr st"
    and fig: "fig = finish_figure s e st"
    using update_graph_try_Inr by blast
  have "length (filter is_actual_values_line (traces st))
      \<le> length (filter (\<lambda>t. \<not> is_dashed t) (traces st))"
    by (rule length_filter_mono) (simp add: is_actual_values_line_def is_dashed_def)
  also have "\<dots> \<le> 1" using run by (rule process_models_solid_le)
  finally show ?thesis using Inr fig by (simp add: update_graph_def)
qed

theorem ground_truth_at_most_once_witness:
  "length (filter is_actual_values_line
     (fig_data (update_graph example_app [''results-csv_A'', ''B'', ''G''] [0, 3]))) = 1"
proof -
  have "length (filter is_actual_values_line
     (fig_data (update_graph example_app [''results-csv_A'', ''B'', ''G''] [0, 3]))) \<noteq> 0"
    by code_simp
  then show ?thesis
    using ground_truth_at_most_once [of example_app "[''results-csv_A'', ''B'', ''G'']" "[0, 3]"]
    by linarith
qed

section \<open>Nothing to plot\<close>

text \<open>
  Claim C8 as the code has it. When the range indices resolve, every selected model is in
  the store and the loop has collected no value, the callback returns the collected lines
  with no y axis and no title: the title is set in the same branch as the axis. With no
  model selected the figure has no lines, no title and no axis.
\<close>

theorem nothing_to_plot:
  assumes "py_index (date_list a) i0 = Inr s" and "py_index (date_list a) i1 = Inr e"
    and "process_models (models_data a) s e initial_state sel = Inr st"
    and "all_values st = []"
  shows "update_graph a sel [i0, i1] = \<lparr>fig_data = traces st, fig_title = None, fig_yaxis = None\<rparr>
         \<and> update_graph a [] [i0, i1] = \<lparr>fig_data = [], fig_title = None, fig_yaxis = None\<rparr>"
proof -
  have "update_graph a sel [i0, i1] = finish_figure s e st"
    using assms(1-3) by (rule update_graph_resolved)
  moreover have "update_graph a [] [i0, i1] = finish_figure s e initial_state"
    using assms(1,2) by (simp add: update_graph_resolved)
  ultimately show ?thesis
    using assms(4) by (simp add: finish_figure_def initial_state_def)
qed

theorem nothing_to_plot_witness:
  "py_index (date_list example_app) 3 = Inr 4
   \<and> process_models (models_data example_app) 4 4 initial_state [''G''] =
        Inr \<lparr>traces = [ground_truth_trace \<lparr>dates = [], cols = [(''groundtruth'', [])]\<rparr> []],
             ground_truth_plotted = True, all_values = []\<rparr>
   \<and> update_graph example_app [''G''] [3, 3] =
        \<lparr>fig_data = [ground_truth_trace \<lparr>dates = [], cols = [(''groundtruth'', [])]\<rparr> []],
         fig_title = None, fig_yaxis = None\<rparr>
   \<and> update_graph example_app [] [3, 3] = \<lparr>fig_data = [], fig_title = None, fig_yaxis = None\<rparr>"
proof -
  let ?st = "\<lparr>traces = [ground_truth_trace \<lparr>dates = [], cols = [(''groundtruth'', [])]\<rparr> []],
             ground_truth_plotted = True, all_values = []\<rparr>"
  have h1: "py_index (date_list example_app) 3 = Inr 4" by code_simp
  have h3: "process_models (models_data example_app) 4 4 initial_state [''G''] = Inr ?st"
    by code_simp
  have h4: "all_values ?st = []" by simp
  show ?thesis
    using h1 h3 nothing_to_plot [OF h1 h1 h3 h4] by simp
qed

theorem nothing_to_plot_counterexample:
  "py_index (date_list example_app) 0 = Inr 1 \<and> py_index (date_list example_app) 3 = Inr 4
   \<and> fig_title (update_graph example_app [] [0, 3]) = None
   \<and> fig_title (update_graph example_app [] [0, 3]) \<noteq> Some (Smooth_window 1 4)"
  by code_simp

section \<open>Range indices out of range\<close>

text \<open>
  Claim C9 as the code has it. When one of the two range indices is one Python rejects for
  the date list (at least its length, or below minus its length), the callback returns the
  figure with no lines whose title carries the \<^verbatim>\<open>IndexError\<close>. A negative index down to
  minus the length is not an error: it counts from the end of the date list.
\<close>

theorem range_index_error:
  assumes "\<not> in_range (date_list a) i0 \<or> \<not> in_range (date_list a) i1"
  shows "update_graph a sel [i0, i1] =
           \<lparr>fig_data = [], fig_title = Some (Error_loading IndexError), fig_yaxis = None\<rparr>"
proof (cases "in_range (date_list a) i0")
  case False
  then show ?thesis
    by (simp add: update_graph_def update_graph_try_def py_index_out_of_range error_figure_def)
next
  case True
  then obtain s where s: "py_index (date_list a) i0 = Inr s"
    using py_index_in_range by blast
  from True assms have "py_index (date_list a) i1 = Inl IndexError"
    by (simp add: py_index_out_of_range)
  then show ?thesis
    using s by (simp add: update_graph_def update_graph_try_def error_figure_def)
qed

theorem range_index_error_witness:
  "\<not> in_range (date_list example_app) 4
   \<and> update_graph example_app [''B''] [0, 4] =
       \<lparr>fig_data = [], fig_title = Some (Error_loading IndexError), fig_yaxis = None\<rparr>"
proof -
  have h: "\<not> in_range (date_list example_app) 4" by code_simp
  then have "\<not> in_range (date_list example_app) 0 \<or> \<not> in_range (date_list example_app) 4"
    by simp
  from h range_index_error [OF this] show ?thesis by simp
qed

theorem range_index_error_counterexample:
  "\<not> (0 \<le> (- 1 :: int))
   \<and> update_graph example_app [''B''] [- 1, - 1] =
       \<lparr>fig_data =
          [\<lparr>trace_x = [4], trace_y = [Some 2000], trace_name = ''Actual Values'',
            line_color = Some ''black'', line_dash = None\<rparr>,
           \<lparr>trace_x = [4], trace_y = [Some 2500], trace_name = ''B'',
            line_color = None, line_dash = Some ''dash''\<rparr>],
        fig_title = Some (Smooth_window 4 4),
        fig_yaxis = Some \<lparr>yaxis_range = (0, 4000), yaxis_dtick = 2000\<rparr>\<rparr>"
  by code_simp

section \<open>The callback always returns a figure\<close>











section \<open>Sorting and merging\<close>

lemma dates_sort_values:
  "dates (sort_values df) = map (\<lambda>i. dates df ! i) (sort_key (\<lambda>i. dates df ! i) [0..<length (dates df)])"
  by (simp add: sort_values_def take_rows_def)

lemma set_dates_sort_values: "set (dates (sort_values df)) = set (dates df)"
proof -
  have "set (dates (sort_values df)) = (\<lambda>i. dates df ! i) ` {0..<length (dates df)}"
    by (simp add: dates_sort_values)
  also have "\<dots> = set (map (\<lambda>i. dates df ! i) [0..<length (dates df)])" by simp
  also have "\<dots> = set (dates df)" by (simp only: map_nth)
  finally show ?thesis .
qed

lemma distinct_dates_sort_values:
  assumes "distinct (dates df)"
  shows "distinct (dates (sort_values df))"
proof -
  have "inj_on (\<lambda>i. dates df ! i) {0..<length (dates df)}"
    using assms by (auto simp add: inj_on_def nth_eq_iff_index_eq)
  then show ?thesis by (simp add: dates_sort_values distinct_map)
qed

lemma length_dates_sort_values: "length (dates (sort_values df)) = length (dates df)"
  by (simp add: dates_sort_values)

lemma dates_sort_values_Nil: "(dates (sort_values df) = []) = (dates df = [])"
  using length_dates_sort_values [of df] by (metis length_0_conv)

lemma matches_distinct:
  assumes "distinct ds" and "filter (\<lambda>i. ds ! i = d) [0..<length ds] = j # js"
  shows "js = []"
proof (rule ccontr)
  assume "js \<noteq> []"
  then obtain k where k: "k \<in> set js" by (cases js) auto
  have dist: "distinct (j # js)"
    using assms(2) [symmetric] by (simp only: distinct_filter distinct_upt)
  have mem: "\<And>x. x \<in> set (j # js) \<Longrightarrow> x < length ds \<and> ds ! x = d"
    using assms(2) [symmetric] by auto
  from mem [of j] mem [of k] k have "j < length ds" "k < length ds" "ds ! j = ds ! k" by auto
  with assms(1) have "j = k" by (simp add: nth_eq_iff_index_eq)
  with dist k show False by simp
qed

lemma merge_rows_distinct:
  assumes "distinct ds"
  shows "map fst (merge_rows full ds) = full"
proof -
  have one: "map fst (case filter (\<lambda>i. ds ! i = d) [0..<length ds] of
                         [] \<Rightarrow> [(d, None)]
                       | j # js \<Rightarrow> map (\<lambda>i. (d, Some i)) (j # js)) = [d]" for d
    using matches_distinct [OF assms, of d] by (auto split: list.splits)
  show ?thesis
    unfolding merge_rows_def
    by (induction full) (simp_all add: one)
qed

lemma dates_merge_left: "dates (merge_left full df) = map fst (merge_rows full (dates df))"
  by (simp add: merge_left_def Let_def)

lemma merge_calendar_cases:
  "merge_calendar df =
     (if dates df = [] then Inl ValueError_NaT_range
      else Inr (merge_left (date_range (Min (set (dates df))) (Max (set (dates df))))
                  (sort_values df)))"
  by (simp add: merge_calendar_def Let_def dates_sort_values_Nil set_dates_sort_values)

section \<open>Interpolation\<close>

lemma cols_interpolate_col:
  "map_of (cols (interpolate_col n d)) m =
     (if m = n then map_option interpolate_linear (map_of (cols d) n) else map_of (cols d) m)"
  by (cases "map_of (cols d) n") (simp_all add: interpolate_col_def update_conv')

lemma dates_interpolate_col [simp]: "dates (interpolate_col n d) = dates d"
  by (simp add: interpolate_col_def split: option.splits)

lemma dates_interpolate_frame [simp]: "dates (interpolate_frame df d) = dates d"
  by (simp add: interpolate_frame_def Let_def)

lemma cols_interpolate_frame:
  "map_of (cols (interpolate_frame df d)) n =
     (if interpolated_column df n then map_option interpolate_linear (map_of (cols d) n)
      else map_of (cols d) n)"
  by (simp add: interpolate_frame_def Let_def interpolated_column_def cols_interpolate_col)

lemma interpolate_at_leading:
  assumes "\<forall>i \<le> k. cs ! i = None"
  shows "interpolate_at cs k = None"
proof -
  have "filter (\<lambda>i. cs ! i \<noteq> None) (rev [0..<k]) = []"
    using assms by (simp add: filter_empty_conv)
  then have "prev_valid cs k = None" by (simp add: prev_valid_def)
  moreover from assms have "cs ! k = None" by simp
  ultimately show ?thesis by (simp add: interpolate_at_def)
qed

lemma interpolate_at_trailing:
  assumes "i < k" and "k < length cs" and "cs ! i = Some v"
    and "\<forall>j. i < j \<and> j < length cs \<longrightarrow> cs ! j = None"
  shows "interpolate_at cs k = Some v"
proof -
  have k: "cs ! k = None" using assms by simp
  have "[0..<k] = [0..<i] @ i # [Suc i..<k]"
  proof -
    have "[0..<i + (k - i)] = [0..<i] @ [i..<i + (k - i)]"
      by (rule upt_add_eq_append) simp
    then have "[0..<k] = [0..<i] @ [i..<k]"
      using assms(1) by simp
    also have "[i..<k] = i # [Suc i..<k]"
      using assms(1) by (rule upt_conv_Cons)
    finally show ?thesis .
  qed
  then have "rev [0..<k] = rev [Suc i..<k] @ i # rev [0..<i]" by simp
  moreover have "filter (\<lambda>i. cs ! i \<noteq> None) (rev [Suc i..<k]) = []"
    using assms(2,4) by (simp add: filter_empty_conv)
  ultimately have "filter (\<lambda>i. cs ! i \<noteq> None) (rev [0..<k]) =
      i # filter (\<lambda>i. cs ! i \<noteq> None) (rev [0..<i])"
    using assms(3) by simp
  then have p: "prev_valid cs k = Some i" by (simp add: prev_valid_def)
  have "filter (\<lambda>j. cs ! j \<noteq> None) [Suc k..<length cs] = []"
    using assms(1,4) by (simp add: filter_empty_conv)
  then have n: "next_valid cs k = None" by (simp add: next_valid_def)
  show ?thesis using k p n assms(3) by (simp add: interpolate_at_def)
qed

lemma length_interpolate_linear [simp]: "length (interpolate_linear cs) = length cs"
  by (simp add: interpolate_linear_def)

lemma nth_interpolate_linear:
  "k < length cs \<Longrightarrow> interpolate_linear cs ! k = interpolate_at cs k"
  by (simp add: interpolate_linear_def)

section \<open>Loading one file\<close>

lemma load_frame_cases:
  "load_frame df =
     (if dates df = [] then Inl ValueError_NaT_range
      else Inr (interpolate_frame df
                  (merge_left (date_range (Min (set (dates df))) (Max (set (dates df))))
                     (sort_values df))))"
  by (simp add: load_frame_def merge_calendar_cases)

text \<open>
  Claim C5 as the code has it. A file with at least one row whose dates are pairwise
  distinct loads into a frame with one row for each day from its earliest to its latest
  date: \<open>N + 1\<close> rows when the dates span \<open>N\<close> days, the \<open>k\<close>-th row dated \<open>k\<close> days after
  the earliest date. (A day that occurs on several rows of the file keeps all of them.)
\<close>

theorem calendar_rows:
  assumes "dates df \<noteq> []" and "distinct (dates df)"
  shows "\<exists>d. load_frame df = Inr d
           \<and> dates d = [Min (set (dates df))..Max (set (dates df))]
           \<and> length (dates d) = nat (Max (set (dates df)) - Min (set (dates df))) + 1
           \<and> (\<forall>k < length (dates d). dates d ! k = Min (set (dates df)) + int k)"
proof -
  let ?lo = "Min (set (dates df))" and ?hi = "Max (set (dates df))"
  let ?d = "interpolate_frame df (merge_left (date_range ?lo ?hi) (sort_values df))"
  have le: "?lo \<le> ?hi" using assms(1) by simp
  have load: "load_frame df = Inr ?d" using assms(1) by (simp add: load_frame_cases)
  have "distinct (dates (sort_values df))"
    using assms(2) by (rule distinct_dates_sort_values)
  then have dates: "dates ?d = [?lo..?hi]"
    by (simp add: dates_merge_left merge_rows_distinct date_range_def)
  have len: "length (dates ?d) = nat (?hi - ?lo) + 1"
    unfolding dates using le by simp
  have "\<forall>k < length (dates ?d). dates ?d ! k = ?lo + int k"
  proof (intro allI impI)
    fix k assume "k < length (dates ?d)"
    then have "?lo + int k \<le> ?hi" unfolding dates using le by simp
    then show "dates ?d ! k = ?lo + int k" unfolding dates by (simp add: nth_upto)
  qed
  with load dates len show ?thesis by blast
qed

theorem calendar_rows_witness:
  "dates frame_A \<noteq> [] \<and> distinct (dates frame_A)
   \<and> Min (set (dates frame_A)) = 1 \<and> Max (set (dates frame_A)) = 3
   \<and> (\<exists>d. load_frame frame_A = Inr d \<and> dates d = [1, 2, 3] \<and> length (dates d) = 3)"
proof -
  have h1: "dates frame_A \<noteq> []" by code_simp
  have h2: "distinct (dates frame_A)" by code_simp
  have lo: "Min (set (dates frame_A)) = 1" by code_simp
  have hi: "Max (set (dates frame_A)) = 3" by code_simp
  have r: "[1..3] = [1, 2, 3 :: int]" by code_simp
  from calendar_rows [OF h1 h2] obtain d where "load_frame frame_A = Inr d"
    and "dates d = [Min (set (dates frame_A))..Max (set (dates frame_A))]"
    by blast
  then have "load_frame frame_A = Inr d \<and> dates d = [1, 2, 3] \<and> length (dates d) = 3"
    by (simp add: lo hi r)
  with h1 h2 lo hi show ?thesis by blast
qed

theorem calendar_rows_counterexample:
  "length (dates frame_dup) \<ge> 2
   \<and> Min (set (dates frame_dup)) = 1 \<and> Max (set (dates frame_dup)) = 2
   \<and> load_frame frame_dup =
       Inr \<lparr>dates = [1, 1, 2], cols = [(''predictions'', [Some 10, Some 10, Some 30])]\<rparr>
   \<and> length [1, 1, 2 :: int] \<noteq> nat (2 - 1) + 1"
  by code_simp

text \<open>
  Claim C3 as the code has it. For a column of the merged frame, the loaded column has the
  same length; a cell with no known cell at or before it stays unknown, so leading unknown
  cells are never filled and a column with no known cell stays entirely unknown. In an
  interpolated column the unknown cells after the last known cell are filled with that
  cell's value: the interpolation of pandas fills forward.
\<close>

theorem interpolation_edges:
  assumes "merge_calendar df = Inr mg" and "map_of (cols mg) n = Some c"
  shows "\<exists>d c'. load_frame df = Inr d \<and> map_of (cols d) n = Some c'
           \<and> length c' = length c
           \<and> (\<forall>k < length c. (\<forall>i \<le> k. c ! i = None) \<longrightarrow> c' ! k = None)
           \<and> ((\<forall>k < length c. c ! k = None) \<longrightarrow> (\<forall>k < length c. c' ! k = None))
           \<and> (interpolated_column df n \<longrightarrow>
                (\<forall>i k v. i < k \<and> k < length c \<and> c ! i = Some v
                          \<and> (\<forall>j. i < j \<and> j < length c \<longrightarrow> c ! j = None)
                    \<longrightarrow> c' ! k = Some v))"
proof -
  let ?d = "interpolate_frame df mg"
  let ?c' = "if interpolated_column df n then interpolate_linear c else c"
  have load: "load_frame df = Inr ?d" using assms(1) by (simp add: load_frame_def)
  have col: "map_of (cols ?d) n = Some ?c'"
    using assms(2) by (simp add: cols_interpolate_frame)
  have len: "length ?c' = length c" by simp
  have lead: "\<forall>k < length c. (\<forall>i \<le> k. c ! i = None) \<longrightarrow> ?c' ! k = None"
    by (simp add: nth_interpolate_linear interpolate_at_leading)
  then have empty: "(\<forall>k < length c. c ! k = None) \<longrightarrow> (\<forall>k < length c. ?c' ! k = None)"
    by (metis le_less_trans)
  have trail: "interpolated_column df n \<longrightarrow>
                (\<forall>i k v. i < k \<and> k < length c \<and> c ! i = Some v
                          \<and> (\<forall>j. i < j \<and> j < length c \<longrightarrow> c ! j = None)
                    \<longrightarrow> ?c' ! k = Some v)"
  proof (intro impI allI)
    fix i k v
    assume ic: "interpolated_column df n"
      and h: "i < k \<and> k < length c \<and> c ! i = Some v
                \<and> (\<forall>j. i < j \<and> j < length c \<longrightarrow> c ! j = None)"
    then have "interpolate_at c k = Some v"
      by (intro interpolate_at_trailing [of i k c v]) simp_all
    with ic h show "?c' ! k = Some v" by (simp add: nth_interpolate_linear)
  qed
  from load col len lead empty trail show ?thesis by blast
qed

theorem interpolation_edges_witness:
  "merge_calendar frame_A =
     Inr \<lparr>dates = [1, 2, 3],
          cols = [(''groundtruth'', [Some 100, None, None]),
                  (''predictions'', [None, None, Some 110])]\<rparr>
   \<and> interpolated_column frame_A ''groundtruth''
   \<and> (\<exists>d g p. load_frame frame_A = Inr d
         \<and> map_of (cols d) ''groundtruth'' = Some g \<and> g ! 2 = Some 100
         \<and> map_of (cols d) ''predictions'' = Some p \<and> p ! 1 = None)"
proof -
  let ?mg = "\<lparr>dates = [1, 2, 3],
          cols = [(''groundtruth'', [Some 100, None, None]),
                  (''predictions'', [None, None, Some 110])]\<rparr>"
  have h1: "merge_calendar frame_A = Inr ?mg" by code_simp
  have g: "map_of (cols ?mg) ''groundtruth'' = Some [Some 100, None, None]" by simp
  have p: "map_of (cols ?mg) ''predictions'' = Some [None, None, Some 110]" by simp
  have ic: "interpolated_column frame_A ''groundtruth''" by code_simp
  from interpolation_edges [OF h1 g] ic
  obtain d1 g' where d1: "load_frame frame_A = Inr d1"
    and g1: "map_of (cols d1) ''groundtruth'' = Some g'"
    and t: "\<forall>i k v. i < k \<and> k < length [Some (100::real), None, None]
                 \<and> [Some (100::real), None, None] ! i = Some v
                 \<and> (\<forall>j. i < j \<and> j < length [Some (100::real), None, None]
                        \<longrightarrow> [Some (100::real), None, None] ! j = None)
              \<longrightarrow> g' ! k = Some v"
    by blast
  have "(\<forall>j. 0 < j \<and> j < length [Some (100::real), None, None]
              \<longrightarrow> [Some (100::real), None, None] ! j = None)"
    by (auto simp add: less_Suc_eq nth_Cons')
  with t [rule_format, of 0 2 100] have g2: "g' ! 2 = Some 100" by simp
  from interpolation_edges [OF h1 p]
  obtain d2 p' where d2: "load_frame frame_A = Inr d2"
    and p1: "map_of (cols d2) ''predictions'' = Some p'"
    and l: "\<forall>k < length [None, None, Some (110::real)].
              (\<forall>i \<le> k. [None, None, Some (110::real)] ! i = None) \<longrightarrow> p' ! k = None"
    by blast
  have "\<forall>i \<le> 1. [None, None, Some (110::real)] ! i = None"
    by (auto simp add: le_Suc_eq)
  with l [rule_format, of 1] have p2: "p' ! 1 = None" by simp
  from d1 d2 have "d2 = d1" by simp
  with d1 g1 g2 p1 p2 h1 ic show ?thesis by blast
qed

theorem interpolation_edges_counterexample:
  "merge_calendar frame_A =
     Inr \<lparr>dates = [1, 2, 3],
          cols = [(''groundtruth'', [Some 100, None, None]),
                  (''predictions'', [None, None, Some 110])]\<rparr>
   \<and> load_frame frame_A =
     Inr \<lparr>dates = [1, 2, 3],
          cols = [(''groundtruth'', [Some 100, Some 100, Some 100]),
                  (''predictions'', [None, None, Some 110])]\<rparr>
   \<and> interpolate_linear [Some 100, None, None] = [Some 100, Some 100, Some 100]"
  by code_simp

section \<open>Loading the directory\<close>

lemma load_files_append:
  "load_files (pre @ rest) md =
     (case load_files pre md of Inl e \<Rightarrow> Inl e | Inr md' \<Rightarrow> load_files rest md')"
proof (induction pre arbitrary: md)
  case Nil
  then show ?case by simp
next
  case (Cons f pre)
  obtain fname df where f: "f = (fname, df)" by (cases f)
  show ?case by (simp add: f Cons.IH split: sum.splits)
qed

lemma load_frame_no_columns:
  assumes "dates df \<noteq> []" and "\<not> has_col df ''groundtruth''"
    and "\<not> has_col df ''predictions''" and "\<not> has_col df ''predicted values''"
  shows "\<exists>d. load_frame df = Inr d \<and> merge_calendar df = Inr d"
proof -
  from assms(1) obtain mg where mg: "merge_calendar df = Inr mg"
    by (simp add: merge_calendar_cases)
  have "interpolate_frame df mg = mg"
    using assms(2-4) by (simp add: interpolate_frame_def)
  with mg show ?thesis by (simp add: load_frame_def)
qed

text \<open>
  Claim C2 as the code has it. A file with no rows fails to load with the \<^verbatim>\<open>ValueError\<close> of
  \<^verbatim>\<open>pd.date_range\<close> on an empty date range; when the files listed before it have loaded,
  that error ends the loading of the directory before any store exists. Nothing checks
  the columns of a file: a file with at least one row and none of the columns
  \<^verbatim>\<open>groundtruth\<close>, \<^verbatim>\<open>predictions\<close>, \<^verbatim>\<open>predicted values\<close> loads, as its calendar merge with
  nothing interpolated.
\<close>

theorem load_errors:
  "(dates df = [] \<longrightarrow> load_frame df = Inl ValueError_NaT_range)
   \<and> (filter (\<lambda>f. endswith (fst f) ''.csv'') listing = pre @ (fname, df) # post
        \<and> load_files pre [] = Inr md \<and> dates df = []
      \<longrightarrow> load_app (Some listing) = Inl ValueError_NaT_range)
   \<and> (dates other \<noteq> [] \<and> \<not> has_col other ''groundtruth''
        \<and> \<not> has_col other ''predictions'' \<and> \<not> has_col other ''predicted values''
      \<longrightarrow> (\<exists>d. load_frame other = Inr d \<and> merge_calendar other = Inr d))"
proof (intro conjI impI)
  assume "dates df = []"
  then show "load_frame df = Inl ValueError_NaT_range" by (simp add: load_frame_cases)
next
  let ?fs = "filter (\<lambda>f. endswith (fst f) ''.csv'') listing"
  assume h: "?fs = pre @ (fname, df) # post \<and> load_files pre [] = Inr md \<and> dates df = []"
  then have "load_frame df = Inl ValueError_NaT_range" by (simp add: load_frame_cases)
  with h have "load_files ?fs [] = Inl ValueError_NaT_range"
    by (simp add: load_files_append)
  moreover from h have "?fs \<noteq> []" by simp
  ultimately show "load_app (Some listing) = Inl ValueError_NaT_range"
    by (simp add: load_app_def Let_def)
next
  assume "dates other \<noteq> [] \<and> \<not> has_col other ''groundtruth''
        \<and> \<not> has_col other ''predictions'' \<and> \<not> has_col other ''predicted values''"
  then show "\<exists>d. load_frame other = Inr d \<and> merge_calendar other = Inr d"
    by (intro load_frame_no_columns) simp_all
qed

theorem load_errors_witness:
  "dates frame_empty = []
   \<and> load_frame frame_empty = Inl ValueError_NaT_range
   \<and> filter (\<lambda>f. endswith (fst f) ''.csv'')
        [(''results-csv_A.csv'', frame_A), (''notes.txt'', frame_G), (''E.csv'', frame_empty)] =
       [(''results-csv_A.csv'', frame_A)] @ (''E.csv'', frame_empty) # []
   \<and> load_files [(''results-csv_A.csv'', frame_A)] [] = Inr [(''results-csv_A'', loaded_A)]
   \<and> load_app (Some [(''results-csv_A.csv'', frame_A), (''notes.txt'', frame_G),
                      (''E.csv'', frame_empty)]) = Inl ValueError_NaT_range
   \<and> dates frame_dates_only \<noteq> [] \<and> \<not> has_col frame_dates_only ''groundtruth''
   \<and> \<not> has_col frame_dates_only ''predictions''
   \<and> \<not> has_col frame_dates_only ''predicted values''
   \<and> (\<exists>d. load_frame frame_dates_only = Inr d \<and> merge_calendar frame_dates_only = Inr d)"
proof -
  let ?listing = "[(''results-csv_A.csv'', frame_A), (''notes.txt'', frame_G),
                   (''E.csv'', frame_empty)]"
  have e: "dates frame_empty = []" by code_simp
  have f: "filter (\<lambda>f. endswith (fst f) ''.csv'') ?listing =
       [(''results-csv_A.csv'', frame_A)] @ (''E.csv'', frame_empty) # []"
    by code_simp
  have l: "load_files [(''results-csv_A.csv'', frame_A)] [] = Inr [(''results-csv_A'', loaded_A)]"
    by code_simp
  have o: "dates frame_dates_only \<noteq> [] \<and> \<not> has_col frame_dates_only ''groundtruth''
        \<and> \<not> has_col frame_dates_only ''predictions''
        \<and> \<not> has_col frame_dates_only ''predicted values''"
    by code_simp
  from load_errors [of frame_empty ?listing "[(''results-csv_A.csv'', frame_A)]" "''E.csv''" "[]"
      "[(''results-csv_A'', loaded_A)]" frame_dates_only] e f l o
  have "load_frame frame_empty = Inl ValueError_NaT_range
      \<and> load_app (Some ?listing) = Inl ValueError_NaT_range
      \<and> (\<exists>d. load_frame frame_dates_only = Inr d \<and> merge_calendar frame_dates_only = Inr d)"
    by blast
  with e f l o show ?thesis by blast
qed

theorem load_errors_counterexample:
  "\<not> has_col frame_dates_only ''groundtruth'' \<and> \<not> has_col frame_dates_only ''predictions''
   \<and> \<not> has_col frame_dates_only ''predicted values''
   \<and> load_app (Some [(''M.csv'', frame_dates_only)]) =
       Inr \<lparr>models_data = [(''M'', \<lparr>dates = [1, 2, 3], cols = []\<rparr>)],
            date_list = [1, 2, 3]\<rparr>"
  by code_simp

end
